theory Spec2Isabelle
  imports
    Complex_Main
    "HOL-Library.AList"
    "HOL-Library.Sublist"
    "HOL-Library.Multiset"
    "HOL-Library.Char_ord"
    "HOL-Library.List_Lexorder"
begin

section \<open>JSON values and the JavaScript operations the scripts apply to them\<close>

text \<open>
  A JavaScript string is its sequence of UTF-16 code units, each a number below 65536.
  \<open>js\<close> gives the string a literal of the scripts denotes: their literals are ASCII, one
  code unit per character.
\<close>

type_synonym jstring = "nat list"

definition js :: "string \<Rightarrow> jstring" where
  "js s = map of_char s"

text \<open>
  Both scripts work on values produced by \<^verbatim>\<open>JSON.parse\<close>. An object is the list of its own
  properties in the order \<^verbatim>\<open>Object.keys\<close> enumerates them; a parsed object never has two
  properties of the same name. A number carries the value of the parsed double (both zeros
  are \<open>0\<close>; literals that overflow to an infinity are not covered).
\<close>

datatype json =
    JNull
  | JBool bool
  | JNum rat
  | JStr jstring
  | JArr "json list"
  | JObj "(jstring \<times> json) list"

text \<open>
  What a \<^verbatim>\<open>try\<close> block can catch: \<^verbatim>\<open>loadJson\<close> failing (the file is unreadable or
  is not JSON), and a \<^verbatim>\<open>TypeError\<close> raised by the script's own code.
\<close>

datatype error = LoadError | TypeError

type_synonym jsobject = "(jstring \<times> json) list"

text \<open>Array indices as property names.\<close>

definition digit :: "nat \<Rightarrow> nat" where
  "digit d = js ''0123456789'' ! d"

fun decimal :: "nat \<Rightarrow> jstring" where
  "decimal n = (if n < 10 then [digit n] else decimal (n div 10) @ [digit (n mod 10)])"

declare decimal.simps [simp del]

text \<open>
  The own enumerable properties of a value, which is what the spread \<^verbatim>\<open>{ ...v }\<close> copies and
  what \<^verbatim>\<open>Object.keys(v)\<close> lists: the fields of an object, the indexed elements of an array,
  the indexed code units of a string, nothing for \<^verbatim>\<open>null\<close>, booleans and numbers.
\<close>

fun own_props :: "json \<Rightarrow> (jstring \<times> json) list" where
  "own_props (JObj kvs) = kvs"
| "own_props (JArr xs) = zip (map decimal [0..<length xs]) xs"
| "own_props (JStr s) = zip (map decimal [0..<length s]) (map (\<lambda>c. JStr [c]) s)"
| "own_props JNull = []"
| "own_props (JBool b) = []"
| "own_props (JNum q) = []"

text \<open>
  \<^verbatim>\<open>v.k\<close> and \<^verbatim>\<open>v[k]\<close>: a \<^verbatim>\<open>TypeError\<close> on \<^verbatim>\<open>null\<close>, otherwise the own property or
  \<^verbatim>\<open>undefined\<close> (\<open>None\<close>). None of the names the scripts read (\<^verbatim>\<open>id\<close>, \<^verbatim>\<open>alias\<close>,
  \<^verbatim>\<open>name\<close>, \<^verbatim>\<open>publisher\<close>, \<^verbatim>\<open>official\<close>, \<^verbatim>\<open>verified\<close>, \<^verbatim>\<open>transport\<close>, \<^verbatim>\<open>type\<close>,
  \<^verbatim>\<open>categories\<close>, \<^verbatim>\<open>icon\<close>, the platform fields) is inherited from a prototype.
\<close>

definition get_prop :: "json \<Rightarrow> jstring \<Rightarrow> error + json option" where
  "get_prop v k = (if v = JNull then Inl TypeError else Inr (map_of (own_props v) k))"

text \<open>Truthiness of a JSON value, and of a possibly \<^verbatim>\<open>undefined\<close> one.\<close>

fun js_truthy :: "json \<Rightarrow> bool" where
  "js_truthy JNull = False"
| "js_truthy (JBool b) = b"
| "js_truthy (JNum q) = (q \<noteq> 0)"
| "js_truthy (JStr s) = (s \<noteq> [])"
| "js_truthy (JArr xs) = True"
| "js_truthy (JObj kvs) = True"

definition truthy :: "json option \<Rightarrow> bool" where
  "truthy v = (case v of None \<Rightarrow> False | Some x \<Rightarrow> js_truthy x)"

text \<open>
  \<^verbatim>\<open>p && p.k\<close> for a possibly undefined \<open>p\<close>: the property when \<open>p\<close> is truthy (a truthy
  value is never \<^verbatim>\<open>null\<close>, so the read cannot throw), and a falsy value otherwise. The
  scripts use the expression only for its truthiness or compare it with a truthy constant,
  so the falsy value is represented by \<open>None\<close>.
\<close>

definition guarded_prop :: "json option \<Rightarrow> jstring \<Rightarrow> json option" where
  "guarded_prop p k =
     (case p of
        None \<Rightarrow> None
      | Some v \<Rightarrow> if js_truthy v then map_of (own_props v) k else None)"

text \<open>
  Keys of a \<^verbatim>\<open>Map\<close> and members of a \<^verbatim>\<open>Set\<close> are compared by SameValueZero: primitives by
  value, arrays and objects by reference. Every array or object handed to the scripts comes
  out of its own \<^verbatim>\<open>JSON.parse\<close> call (or is a distinct part of one result), so a lookup with
  an array or object never finds an entry stored earlier.
\<close>

fun is_primitive :: "json \<Rightarrow> bool" where
  "is_primitive (JArr xs) = False"
| "is_primitive (JObj kvs) = False"
| "is_primitive JNull = True"
| "is_primitive (JBool b) = True"
| "is_primitive (JNum q) = True"
| "is_primitive (JStr s) = True"

definition map_get :: "(json \<rightharpoonup> 'v) \<Rightarrow> json \<Rightarrow> 'v option" where
  "map_get m k = (if is_primitive k then m k else None)"

definition map_set :: "(json \<rightharpoonup> 'v) \<Rightarrow> json \<Rightarrow> 'v \<Rightarrow> (json \<rightharpoonup> 'v)" where
  "map_set m k v = m(k \<mapsto> v)"

definition set_has :: "json list \<Rightarrow> json \<Rightarrow> bool" where
  "set_has s k = (is_primitive k \<and> k \<in> set s)"

text \<open>
  \<^verbatim>\<open>for (const c of s)\<close> over a string yields its code points, each as a string: a high
  surrogate followed by a low surrogate is one code point of two code units, any other code
  unit is a code point by itself.
\<close>

definition high_surrogate :: "nat \<Rightarrow> bool" where
  "high_surrogate u = (0xD800 \<le> u \<and> u \<le> 0xDBFF)"

definition low_surrogate :: "nat \<Rightarrow> bool" where
  "low_surrogate u = (0xDC00 \<le> u \<and> u \<le> 0xDFFF)"

fun code_points :: "jstring \<Rightarrow> jstring list" where
  "code_points (h # l # rest) =
     (if high_surrogate h \<and> low_surrogate l then [h, l] # code_points rest
      else [h] # code_points (l # rest))"
| "code_points [u] = [[u]]"
| "code_points [] = []"

section \<open>validate.js: stripping platform-managed fields\<close>

definition PLATFORM_FIELDS :: "jstring list" where
  "PLATFORM_FIELDS = [js ''badges'', js ''stats'', js ''sponsored'', js ''featured'']"

text \<open>The warning line for a field; \<open>base\<close> is \<^verbatim>\<open>path.basename(filePath)\<close>.\<close>

definition warning :: "jstring \<Rightarrow> jstring \<Rightarrow> jstring" where
  "warning base field =
     js ''  WARNING: '' @ js [CHR 0x22] @ field @ js [CHR 0x22] @
     js '' is a platform-managed field and will be stripped from '' @ base"

text \<open>\<^verbatim>\<open>delete data[k]\<close>; it only ever runs for a property the value has.\<close>

definition delete_prop :: "jstring \<Rightarrow> json \<Rightarrow> json" where
  "delete_prop k data = (case data of JObj kvs \<Rightarrow> JObj (AList.delete k kvs) | _ \<Rightarrow> data)"

text \<open>The first loop, over \<^verbatim>\<open>PLATFORM_FIELDS\<close>; the record is mutated as the loop runs.\<close>

fun strip_fields :: "jstring \<Rightarrow> jstring list \<Rightarrow> json \<Rightarrow> jstring list \<Rightarrow> json \<times> jstring list" where
  "strip_fields base [] data warnings = (data, warnings)"
| "strip_fields base (field # fields) data warnings =
     (if map_of (own_props data) field \<noteq> None
      then strip_fields base fields (delete_prop field data) (warnings @ [warning base field])
      else strip_fields base fields data warnings)"

text \<open>The second loop, over the keys \<^verbatim>\<open>Object.keys(data)\<close> returned when it started.\<close>

fun strip_prefixed :: "jstring \<Rightarrow> jstring list \<Rightarrow> json \<Rightarrow> jstring list \<Rightarrow> json \<times> jstring list" where
  "strip_prefixed base [] data warnings = (data, warnings)"
| "strip_prefixed base (key # keys) data warnings =
     (if prefix (js ''_platform'') key
      then strip_prefixed base keys (delete_prop key data) (warnings @ [warning base key])
      else strip_prefixed base keys data warnings)"

text \<open>
  \<^verbatim>\<open>stripPlatformFields(data, filePath)\<close> returns the warnings and leaves the record
  mutated; the model returns both. \<^verbatim>\<open>data[field]\<close> throws when the file holds \<^verbatim>\<open>null\<close>.
\<close>

definition stripPlatformFields :: "json \<Rightarrow> jstring \<Rightarrow> error + json \<times> jstring list" where
  "stripPlatformFields data base =
     (if data = JNull then Inl TypeError
      else case strip_fields base PLATFORM_FIELDS data [] of
             (data1, warnings1) \<Rightarrow>
               Inr (strip_prefixed base (map fst (own_props data1)) data1 warnings1))"

text \<open>The field names the sanitizer reserves.\<close>

definition reserved :: "jstring \<Rightarrow> bool" where
  "reserved k = (k \<in> set PLATFORM_FIELDS \<or> prefix (js ''_platform'') k)"

section \<open>validate.js: conflict detection\<close>

text \<open>
  A line printed by \<^verbatim>\<open>console.error\<close>, one constructor per message of the source:
  the colliding value, the file being processed, the file found in the map.
\<close>

datatype conflict =
    DuplicateId json jstring jstring
  | IdCollidesAlias json jstring jstring
  | DuplicateAlias json jstring jstring
  | AliasCollidesId json jstring jstring

text \<open>The three kinds of conflict of the data model; both collision messages are one kind.\<close>

datatype conflict_kind = Duplicate_id | Duplicate_alias | Id_alias_collision

fun kind_of :: "conflict \<Rightarrow> conflict_kind" where
  "kind_of (DuplicateId t cur prev) = Duplicate_id"
| "kind_of (IdCollidesAlias t cur prev) = Id_alias_collision"
| "kind_of (DuplicateAlias t cur prev) = Duplicate_alias"
| "kind_of (AliasCollidesId t cur prev) = Id_alias_collision"

fun token_of :: "conflict \<Rightarrow> json" where
  "token_of (DuplicateId t cur prev) = t"
| "token_of (IdCollidesAlias t cur prev) = t"
| "token_of (DuplicateAlias t cur prev) = t"
| "token_of (AliasCollidesId t cur prev) = t"

text \<open>The variables of \<^verbatim>\<open>checkConflicts\<close>, and what it has printed.\<close>

record cstate =
  ids :: "json \<rightharpoonup> jstring"
  aliases :: "json \<rightharpoonup> jstring"
  hasConflicts :: bool
  console :: "conflict list"

definition init_cstate :: cstate where
  "init_cstate = \<lparr>ids = Map.empty, aliases = Map.empty, hasConflicts = False, console = []\<rparr>"

definition report :: "conflict \<Rightarrow> cstate \<Rightarrow> cstate" where
  "report c st = st\<lparr>hasConflicts := True, console := console st @ [c]\<rparr>"

text \<open>The body of \<^verbatim>\<open>if (data.id) { ... }\<close>, for the truthy value \<open>v\<close> of \<^verbatim>\<open>data.id\<close>.\<close>

definition check_id :: "jstring \<Rightarrow> json \<Rightarrow> cstate \<Rightarrow> cstate" where
  "check_id relative v st =
     (let st1 = (case map_get (ids st) v of
                   Some prev \<Rightarrow> report (DuplicateId v relative prev) st
                 | None \<Rightarrow> st\<lparr>ids := map_set (ids st) v relative\<rparr>)
      in case map_get (aliases st1) v of
           Some prev \<Rightarrow> report (IdCollidesAlias v relative prev) st1
         | None \<Rightarrow> st1)"

text \<open>The body of \<^verbatim>\<open>if (data.alias) { ... }\<close>.\<close>

definition check_alias :: "jstring \<Rightarrow> json \<Rightarrow> cstate \<Rightarrow> cstate" where
  "check_alias relative v st =
     (let st1 = (case map_get (aliases st) v of
                   Some prev \<Rightarrow> report (DuplicateAlias v relative prev) st
                 | None \<Rightarrow> st\<lparr>aliases := map_set (aliases st) v relative\<rparr>)
      in case map_get (ids st1) v of
           Some prev \<Rightarrow> report (AliasCollidesId v relative prev) st1
         | None \<Rightarrow> st1)"

text \<open>\<^verbatim>\<open>if (x) { body }\<close> for a possibly undefined \<open>x\<close>.\<close>

definition when_truthy :: "json option \<Rightarrow> (json \<Rightarrow> 's \<Rightarrow> 's) \<Rightarrow> 's \<Rightarrow> 's" where
  "when_truthy x body st =
     (case x of None \<Rightarrow> st | Some v \<Rightarrow> if js_truthy v then body v st else st)"

text \<open>
  One iteration of the loop for a file that parsed. Reading \<^verbatim>\<open>data.id\<close> throws when the
  file holds \<^verbatim>\<open>null\<close>; the exception is not caught inside \<^verbatim>\<open>checkConflicts\<close>.
\<close>

definition check_file :: "jstring \<Rightarrow> json \<Rightarrow> cstate \<Rightarrow> error + cstate" where
  "check_file relative data st =
     (case get_prop data (js ''id'') of
        Inl e \<Rightarrow> Inl e
      | Inr id_value \<Rightarrow>
          (let st1 = when_truthy id_value (check_id relative) st
           in case get_prop data (js ''alias'') of
                Inl e \<Rightarrow> Inl e
              | Inr alias_value \<Rightarrow> Inr (when_truthy alias_value (check_alias relative) st1)))"

text \<open>
  The loop over the files, each given by its path relative to the repository root and the
  result of \<^verbatim>\<open>loadJson\<close> (\<open>None\<close> when it throws: the file is skipped).
\<close>

fun conflict_loop :: "(jstring \<times> json option) list \<Rightarrow> cstate \<Rightarrow> error + cstate" where
  "conflict_loop [] st = Inr st"
| "conflict_loop ((relative, loaded) # files) st =
     (case loaded of
        None \<Rightarrow> conflict_loop files st
      | Some data \<Rightarrow>
          (case check_file relative data st of
             Inl e \<Rightarrow> Inl e
           | Inr st' \<Rightarrow> conflict_loop files st'))"

text \<open>
  \<^verbatim>\<open>checkConflicts\<close> returns \<^verbatim>\<open>hasConflicts\<close>; the model returns the final state, which
  also holds the printed conflicts.
\<close>

definition checkConflicts :: "(jstring \<times> json option) list \<Rightarrow> error + cstate" where
  "checkConflicts files =
     (if files = [] then Inr init_cstate else conflict_loop files init_cstate)"

section \<open>build-bundle.js: enrichment\<close>

definition BUNDLE_VERSION :: jstring where
  "BUNDLE_VERSION = js ''2.1.0''"

text \<open>
  \<^verbatim>\<open>enrichServer(server)\<close>; \<open>now\<close> is the reading of the clock the call takes. The copy
  \<^verbatim>\<open>{ ...server }\<close> never throws; reading \<^verbatim>\<open>server.publisher\<close> does when the file holds
  \<^verbatim>\<open>null\<close>. An assignment to a property replaces its value in place when the copy has
  the property and appends it otherwise.
\<close>

definition enrichServer :: "jstring \<Rightarrow> json \<Rightarrow> error + jsobject" where
  "enrichServer now server =
     (let enriched = own_props server in
      case get_prop server (js ''publisher'') of
        Inl e \<Rightarrow> Inl e
      | Inr publisher \<Rightarrow>
          (let enriched = AList.update (js ''badges'')
                 (if guarded_prop publisher (js ''official'') = Some (JBool True)
                  then JArr [JStr (js ''official'')] else JArr []) enriched
           in case get_prop server (js ''transport'') of
                Inl e \<Rightarrow> Inl e
              | Inr transport \<Rightarrow>
                  (let enriched = AList.update (js ''hosting_type'')
                         (if guarded_prop transport (js ''type'') = Some (JStr (js ''stdio''))
                          then JStr (js ''local'')
                          else if guarded_prop transport (js ''type'') = Some (JStr (js ''http''))
                          then JStr (js ''remote'')
                          else JStr (js ''local'')) enriched
                   in Inr (AList.update (js ''timestamps'')
                         (JObj [(js ''created_at'', JStr now), (js ''updated_at'', JStr now)])
                         enriched))))"

section \<open>build-bundle.js: assembling the bundle\<close>

text \<open>
  The loop that loads and enriches every file. A file is given by its relative path and
  the result of \<^verbatim>\<open>loadJson\<close> (\<open>None\<close> when it throws); \<open>clock n\<close> is the \<open>n\<close>-th reading
  of the clock. Any exception leaves the loop through \<^verbatim>\<open>process.exit(1)\<close>.
\<close>

fun load_servers :: "(nat \<Rightarrow> jstring) \<Rightarrow> nat \<Rightarrow> (jstring \<times> json option) list \<Rightarrow> error + jsobject list" where
  "load_servers clock n [] = Inr []"
| "load_servers clock n ((relative, loaded) # files) =
     (case loaded of
        None \<Rightarrow> Inl LoadError
      | Some data \<Rightarrow>
          (case enrichServer (clock n) data of
             Inl e \<Rightarrow> Inl e
           | Inr enriched \<Rightarrow>
               (case load_servers clock (Suc n) files of
                  Inl e \<Rightarrow> Inl e
                | Inr servers \<Rightarrow> Inr (enriched # servers))))"

text \<open>\<^verbatim>\<open>x || ""\<close> for a possibly undefined \<open>x\<close>.\<close>

definition or_empty :: "json option \<Rightarrow> json" where
  "or_empty x = (case x of None \<Rightarrow> JStr [] | Some v \<Rightarrow> if js_truthy v then v else JStr [])"

text \<open>
  The comparator \<^verbatim>\<open>(a, b) => (a.name || "").localeCompare(b.name || "")\<close>. Only a string
  has a \<^verbatim>\<open>localeCompare\<close> method: with any other receiver the call is a \<^verbatim>\<open>TypeError\<close>.
  The method converts its argument to a string and compares the two strings by the
  collation of the host. The collation \<open>localeCompare\<close> and the conversion \<open>toString\<close> of
  a value that is not a string (it can throw) belong to the host and are parameters.
\<close>

definition compare_names ::
    "(jstring \<Rightarrow> jstring \<Rightarrow> int) \<Rightarrow> (json \<Rightarrow> error + jstring) \<Rightarrow> jsobject \<Rightarrow> jsobject
       \<Rightarrow> error + int" where
  "compare_names localeCompare toString a b =
     (case or_empty (map_of a (js ''name'')) of
        JStr s \<Rightarrow>
          (case or_empty (map_of b (js ''name'')) of
             JStr t \<Rightarrow> Inr (localeCompare s t)
           | v \<Rightarrow> (case toString v of Inl e \<Rightarrow> Inl e | Inr t \<Rightarrow> Inr (localeCompare s t)))
      | _ \<Rightarrow> Inl TypeError)"

text \<open>
  \<^verbatim>\<open>servers.sort(comparator)\<close>. \<^verbatim>\<open>Array.prototype.sort\<close> belongs to the host: which
  comparisons it makes, and so whether a comparator that can throw does throw, depends on
  the engine. It is the parameter \<open>engine\<close>; it returns the sorted array or the exception
  of the comparator.
\<close>

definition sort_servers ::
    "((jsobject \<Rightarrow> jsobject \<Rightarrow> error + int) \<Rightarrow> jsobject list \<Rightarrow> error + jsobject list)
       \<Rightarrow> (jstring \<Rightarrow> jstring \<Rightarrow> int) \<Rightarrow> (json \<Rightarrow> error + jstring) \<Rightarrow> jsobject list
       \<Rightarrow> error + jsobject list" where
  "sort_servers engine localeCompare toString servers =
     engine (compare_names localeCompare toString) servers"

text \<open>
  \<^verbatim>\<open>for (const c of s.categories || [])\<close>: the elements of an array, the code points
  of a string, nothing for a missing or falsy value, a \<^verbatim>\<open>TypeError\<close> for any other value
  (it is not iterable).
\<close>

definition server_categories :: "jsobject \<Rightarrow> error + json list" where
  "server_categories s =
     (case map_of s (js ''categories'') of
        None \<Rightarrow> Inr []
      | Some v \<Rightarrow>
          if js_truthy v
          then (case v of
                  JArr cs \<Rightarrow> Inr cs
                | JStr str \<Rightarrow> Inr (map JStr (code_points str))
                | _ \<Rightarrow> Inl TypeError)
          else Inr [])"

text \<open>The set \<^verbatim>\<open>usedCategories\<close>, as the list of the values added to it.\<close>

fun used_loop :: "jsobject list \<Rightarrow> json list \<Rightarrow> error + json list" where
  "used_loop [] used = Inr used"
| "used_loop (s # servers) used =
     (case server_categories s of
        Inl e \<Rightarrow> Inl e
      | Inr cs \<Rightarrow> used_loop servers (used @ cs))"

definition usedCategories :: "jsobject list \<Rightarrow> error + json list" where
  "usedCategories servers = used_loop servers []"

text \<open>The filter of \<^verbatim>\<open>featuredIds\<close>: \<^verbatim>\<open>s.publisher && s.publisher.official && s.publisher.verified\<close>.\<close>

definition is_featured :: "jsobject \<Rightarrow> bool" where
  "is_featured s =
     (truthy (guarded_prop (map_of s (js ''publisher'')) (js ''official'')) \<and>
      truthy (guarded_prop (map_of s (js ''publisher'')) (js ''verified'')))"

text \<open>An entry is \<open>None\<close> when the server has no \<^verbatim>\<open>id\<close>.\<close>

definition featuredIds :: "jsobject list \<Rightarrow> json option list" where
  "featuredIds servers = map (\<lambda>s. map_of s (js ''id'')) (take 6 (filter is_featured servers))"

text \<open>
  \<^verbatim>\<open>JSON.stringify\<close> leaves out a property whose value is \<^verbatim>\<open>undefined\<close> and writes
  \<^verbatim>\<open>null\<close> for an \<^verbatim>\<open>undefined\<close> array element.
\<close>

definition field :: "jstring \<Rightarrow> json option \<Rightarrow> jsobject" where
  "field k v = (case v of None \<Rightarrow> [] | Some x \<Rightarrow> [(k, x)])"

definition element :: "json option \<Rightarrow> json" where
  "element v = (case v of None \<Rightarrow> JNull | Some x \<Rightarrow> x)"

text \<open>\<^verbatim>\<open>categories.filter((c) => usedCategories.has(c.id))\<close>; \<^verbatim>\<open>c.id\<close> throws on \<^verbatim>\<open>null\<close>.\<close>

fun filter_used :: "json list \<Rightarrow> json list \<Rightarrow> error + json list" where
  "filter_used used [] = Inr []"
| "filter_used used (c # cs) =
     (case get_prop c (js ''id'') of
        Inl e \<Rightarrow> Inl e
      | Inr cid \<Rightarrow>
          (case filter_used used cs of
             Inl e \<Rightarrow> Inl e
           | Inr kept \<Rightarrow>
               Inr (if (case cid of None \<Rightarrow> False | Some k \<Rightarrow> set_has used k)
                    then c # kept else kept)))"

text \<open>The option built for a category that passed the filter, as it is written out.\<close>

definition category_option :: "json \<Rightarrow> json" where
  "category_option c =
     JObj (field (js ''id'') (map_of (own_props c) (js ''id'')) @
           field (js ''label'') (map_of (own_props c) (js ''name'')) @
           field (js ''icon'') (map_of (own_props c) (js ''icon'')) @
           [(js ''match'', JObj ([(js ''field'', JStr (js ''categories'')),
                              (js ''operator'', JStr (js ''contains''))] @
                             field (js ''value'') (map_of (own_props c) (js ''id''))))])"

text \<open>
  The options of the category filter after the fixed first one. Only an array has a
  \<^verbatim>\<open>filter\<close> method: any other content of the category store is a \<^verbatim>\<open>TypeError\<close>.
\<close>

definition category_options :: "json \<Rightarrow> json list \<Rightarrow> error + json list" where
  "category_options categories used =
     (case categories of
        JArr cs \<Rightarrow>
          (case filter_used used cs of
             Inl e \<Rightarrow> Inl e
           | Inr kept \<Rightarrow> Inr (map category_option kept))
      | _ \<Rightarrow> Inl TypeError)"

definition eq_option :: "jstring \<Rightarrow> jstring \<Rightarrow> jstring \<Rightarrow> json \<Rightarrow> json" where
  "eq_option ident label fld v =
     JObj [(js ''id'', JStr ident), (js ''label'', JStr label),
           (js ''match'', JObj [(js ''field'', JStr fld), (js ''operator'', JStr (js ''eq'')), (js ''value'', v)])]"

definition single_filter :: "jstring \<Rightarrow> jstring \<Rightarrow> jstring \<Rightarrow> json list \<Rightarrow> json" where
  "single_filter ident label all_label options =
     JObj [(js ''id'', JStr ident), (js ''label'', JStr label), (js ''type'', JStr (js ''single'')),
           (js ''options'',
            JArr (JObj [(js ''id'', JStr (js ''all'')), (js ''label'', JStr all_label)] # options))]"

definition sort_rule :: "jstring \<Rightarrow> jstring \<Rightarrow> jsobject \<Rightarrow> json" where
  "sort_rule fld direction extra =
     JObj ([(js ''field'', JStr fld), (js ''direction'', JStr direction)] @ extra)"

definition sort_option :: "jstring \<Rightarrow> jstring \<Rightarrow> json list \<Rightarrow> json" where
  "sort_option ident label rules =
     JObj [(js ''id'', JStr ident), (js ''label'', JStr label), (js ''rules'', JArr rules)]"

text \<open>The bundle object as \<^verbatim>\<open>JSON.stringify\<close> writes it.\<close>

definition bundle_document ::
    "jstring \<Rightarrow> jsobject list \<Rightarrow> json \<Rightarrow> json list \<Rightarrow> json option list \<Rightarrow> json" where
  "bundle_document updated_at servers categories options featured =
     JObj [
       (js ''version'', JStr BUNDLE_VERSION),
       (js ''updated_at'', JStr updated_at),
       (js ''servers'', JArr (map JObj servers)),
       (js ''categories'', categories),
       (js ''ui'', JObj [
          (js ''filters'', JArr [
             single_filter (js ''category'') (js ''Category'') (js ''All Categories'') options,
             single_filter (js ''publisher'') (js ''Publisher'') (js ''All Publishers'')
               [eq_option (js ''official'') (js ''Official'') (js ''publisher.official'') (JBool True),
                eq_option (js ''verified'') (js ''Verified'') (js ''publisher.verified'') (JBool True)],
             single_filter (js ''transport'') (js ''Transport'') (js ''All'')
               [eq_option (js ''http'') (js ''Remote (HTTP)'') (js ''transport.type'') (JStr (js ''http'')),
                eq_option (js ''stdio'') (js ''Local (Stdio)'') (js ''transport.type'') (JStr (js ''stdio''))],
             single_filter (js ''auth'') (js ''Auth Required'') (js ''All'')
               [eq_option (js ''none'') (js ''No Auth'') (js ''auth.type'') (JStr (js ''none'')),
                eq_option (js ''api_key'') (js ''API Key'') (js ''auth.type'') (JStr (js ''api_key'')),
                eq_option (js ''oauth'') (js ''OAuth'') (js ''auth.type'') (JStr (js ''oauth''))]]),
          (js ''sort_options'', JArr [
             sort_option (js ''recommended'') (js ''Recommended'')
               [sort_rule (js ''publisher.official'') (js ''desc'') [(js ''nulls'', JStr (js ''last''))],
                sort_rule (js ''publisher.verified'') (js ''desc'') [(js ''nulls'', JStr (js ''last''))],
                sort_rule (js ''name'') (js ''asc'') []],
             sort_option (js ''name_asc'') (js ''Name A-Z'') [sort_rule (js ''name'') (js ''asc'') []],
             sort_option (js ''name_desc'') (js ''Name Z-A'') [sort_rule (js ''name'') (js ''desc'') []]]),
          (js ''default_sort'', JStr (js ''recommended'')),
          (js ''items_per_page'', JNum 24)]),
       (js ''home'', JObj [(js ''featured_server_ids'', JArr (map element featured))])]"

text \<open>
  How a run of \<^verbatim>\<open>main\<close> ends: the exit code of the process and the bundle file it wrote,
  if it wrote one.
\<close>

record run =
  exit_code :: nat
  written :: "json option"

definition abort :: run where
  "abort = \<lparr>exit_code = 1, written = None\<rparr>"

text \<open>
  \<^verbatim>\<open>main\<close> of build-bundle.js. \<open>categories_loaded\<close> is the result of loading the
  category store and \<open>files\<close> the server files with the result of loading each. A failure
  to load the store, and any exception in the loading loop, end the process with
  \<^verbatim>\<open>process.exit(1)\<close>; an exception raised later (by the sort, by the loop over the
  categories, by the filter of the category store) reaches \<^verbatim>\<open>main().catch\<close>, which does
  the same. The bundle is written by the last statement.
\<close>

definition main ::
    "((jsobject \<Rightarrow> jsobject \<Rightarrow> error + int) \<Rightarrow> jsobject list \<Rightarrow> error + jsobject list)
       \<Rightarrow> (jstring \<Rightarrow> jstring \<Rightarrow> int) \<Rightarrow> (json \<Rightarrow> error + jstring) \<Rightarrow> (nat \<Rightarrow> jstring)
       \<Rightarrow> json option \<Rightarrow> (jstring \<times> json option) list \<Rightarrow> run" where
  "main engine localeCompare toString clock categories_loaded files =
     (case categories_loaded of
        None \<Rightarrow> abort
      | Some categories \<Rightarrow>
          (case load_servers clock 0 files of
             Inl e \<Rightarrow> abort
           | Inr servers \<Rightarrow>
               (case sort_servers engine localeCompare toString servers of
                  Inl e \<Rightarrow> abort
                | Inr ordered \<Rightarrow>
                    (case usedCategories ordered of
                       Inl e \<Rightarrow> abort
                     | Inr used \<Rightarrow>
                         (case category_options categories used of
                            Inl e \<Rightarrow> abort
                          | Inr options \<Rightarrow>
                              \<lparr>exit_code = 0,
                               written = Some (bundle_document (clock (length files)) ordered
                                 categories options (featuredIds ordered))\<rparr>)))))"

section \<open>Notions used to state the properties\<close>

text \<open>
  \<open>member v k\<close> is the field \<open>k\<close> of \<open>v\<close> when \<open>v\<close> is an object, and nothing otherwise:
  the reading of a dotted path such as \<^verbatim>\<open>publisher.official\<close> in the data model.
\<close>

definition member :: "json option \<Rightarrow> jstring \<Rightarrow> json option" where
  "member v k = (case v of Some (JObj kvs) \<Rightarrow> map_of kvs k | _ \<Rightarrow> None)"





text \<open>The values of \<^verbatim>\<open>publisher.official\<close> and \<^verbatim>\<open>publisher.verified\<close> of a server.\<close>

definition publisher_flag :: "jsobject \<Rightarrow> jstring \<Rightarrow> json option" where
  "publisher_flag s k = member (map_of s (js ''publisher'')) k"



definition string_name :: "jsobject \<Rightarrow> bool" where
  "string_name s = (case or_empty (map_of s (js ''name'')) of JStr n \<Rightarrow> True | _ \<Rightarrow> False)"






text \<open>
  One engine, used in examples. It sorts the elements after the first and inserts the
  first among them; each comparison has the later element of the input as its first
  argument, as the comparisons of V8 on a short array have. An exception of the comparator
  ends the sort.
\<close>

fun insert_e :: "('a \<Rightarrow> 'a \<Rightarrow> error + int) \<Rightarrow> 'a \<Rightarrow> 'a list \<Rightarrow> error + 'a list" where
  "insert_e cmp x [] = Inr [x]"
| "insert_e cmp x (y # ys) =
     (case cmp y x of
        Inl e \<Rightarrow> Inl e
      | Inr v \<Rightarrow>
          if v < 0
          then (case insert_e cmp x ys of Inl e \<Rightarrow> Inl e | Inr zs \<Rightarrow> Inr (y # zs))
          else Inr (x # y # ys))"

fun insertion_sort :: "('a \<Rightarrow> 'a \<Rightarrow> error + int) \<Rightarrow> 'a list \<Rightarrow> error + 'a list" where
  "insertion_sort cmp [] = Inr []"
| "insertion_sort cmp (x # xs) =
     (case insertion_sort cmp xs of Inl e \<Rightarrow> Inl e | Inr ys \<Rightarrow> insert_e cmp x ys)"

text \<open>
  The collation of the host on names written with the letters A to Z and a to z only, as
  the root collation of ICU (and its English tailoring) defines it: the names are compared
  letter by letter without regard to case, a proper prefix first; names that differ in case
  only are ordered by their first difference, the lower-case letter first. \<open>root_like\<close>
  says of a \<^verbatim>\<open>localeCompare\<close> that it orders such names so. On other strings
  \<open>root_collation\<close> compares code units and is one consistent extension among others.
\<close>

definition is_upper :: "nat \<Rightarrow> bool" where
  "is_upper u = (65 \<le> u \<and> u \<le> 90)"

definition lower :: "nat \<Rightarrow> nat" where
  "lower u = (if is_upper u then u + 32 else u)"


definition root_collation :: "jstring \<Rightarrow> jstring \<Rightarrow> int" where
  "root_collation a b =
     (if map lower a < map lower b then - 1
      else if map lower b < map lower a then 1
      else if map is_upper a < map is_upper b then - 1
      else if map is_upper b < map is_upper a then 1
      else 0)"


text \<open>
  The host's conversion of a value to a string, on the values for which it is immediate: a
  string is itself, \<^verbatim>\<open>true\<close>, \<^verbatim>\<open>false\<close> and \<^verbatim>\<open>null\<close> are written as in the language.
  Examples use it, and apply it to no other value; the conversion of numbers, arrays and
  objects is not modelled.
\<close>

fun atom_toString :: "json \<Rightarrow> error + jstring" where
  "atom_toString (JStr s) = Inr s"
| "atom_toString (JBool b) = Inr (if b then js ''true'' else js ''false'')"
| "atom_toString JNull = Inr (js ''null'')"
| "atom_toString (JNum q) = Inl TypeError"
| "atom_toString (JArr xs) = Inl TypeError"
| "atom_toString (JObj kvs) = Inl TypeError"

text \<open>
  The value a record contributes to a map: its \<^verbatim>\<open>id\<close> (or \<^verbatim>\<open>alias\<close>) when that is truthy
  and a primitive.
\<close>

definition truthy_primitive :: "json option \<Rightarrow> json option" where
  "truthy_primitive x =
     (case x of
        None \<Rightarrow> None
      | Some v \<Rightarrow> if js_truthy v \<and> is_primitive v then Some v else None)"

definition token :: "jstring \<Rightarrow> json \<Rightarrow> json option" where
  "token k data = truthy_primitive (map_of (own_props data) k)"

text \<open>The conflicts a run of \<^verbatim>\<open>checkConflicts\<close> printed, when it returned.\<close>

definition reported :: "(jstring \<times> json option) list \<Rightarrow> conflict list option" where
  "reported files = (case checkConflicts files of Inl e \<Rightarrow> None | Inr st \<Rightarrow> Some (console st))"

text \<open>What was detected, without the attribution to files: the kind and the colliding value.\<close>

definition conflict_keys :: "conflict list \<Rightarrow> (conflict_kind \<times> json) set" where
  "conflict_keys cs = (\<lambda>c. (kind_of c, token_of c)) ` set cs"

text \<open>Conflicts printed by the \<^verbatim>\<open>id\<close> block and by the \<^verbatim>\<open>alias\<close> block of the loop body.\<close>

fun from_id_check :: "conflict \<Rightarrow> bool" where
  "from_id_check (DuplicateId t cur prev) = True"
| "from_id_check (IdCollidesAlias t cur prev) = True"
| "from_id_check (DuplicateAlias t cur prev) = False"
| "from_id_check (AliasCollidesId t cur prev) = False"

text \<open>The keys a lookup in a map can find.\<close>

definition visible :: "(json \<rightharpoonup> 'v) \<Rightarrow> json set" where
  "visible m = {k. map_get m k \<noteq> None}"

text \<open>The values the parsed files of a run contribute under a property name.\<close>

definition file_token :: "jstring \<Rightarrow> jstring \<times> json option \<Rightarrow> json option" where
  "file_token k entry = (case snd entry of None \<Rightarrow> None | Some data \<Rightarrow> token k data)"

definition tokens :: "jstring \<Rightarrow> (jstring \<times> json option) list \<Rightarrow> json multiset" where
  "tokens k files = image_mset the (filter_mset (\<lambda>x. x \<noteq> None) (image_mset (file_token k) (mset files)))"

text \<open>
  The kinds and values of the conflicts a run over \<open>files\<close> adds when it starts with the
  keys \<open>known_ids\<close> and \<open>known_aliases\<close> in its maps.
\<close>

definition expected_keys ::
    "json set \<Rightarrow> json set \<Rightarrow> (jstring \<times> json option) list \<Rightarrow> (conflict_kind \<times> json) set" where
  "expected_keys known_ids known_aliases files =
     {(Duplicate_id, t) | t.
        t \<in># tokens (js ''id'') files \<and> (t \<in> known_ids \<or> 2 \<le> count (tokens (js ''id'') files) t)} \<union>
     {(Duplicate_alias, t) | t.
        t \<in># tokens (js ''alias'') files \<and> (t \<in> known_aliases \<or> 2 \<le> count (tokens (js ''alias'') files) t)} \<union>
     {(Id_alias_collision, t) | t.
        (t \<in># tokens (js ''id'') files \<and> t \<in> known_aliases) \<or>
        (t \<in># tokens (js ''alias'') files \<and> t \<in> known_ids) \<or>
        (t \<in># tokens (js ''id'') files \<and> t \<in># tokens (js ''alias'') files)}"

text \<open>The kinds and values one file adds, from its two tokens and the keys of the maps.\<close>

definition step_keys ::
    "json set \<Rightarrow> json set \<Rightarrow> json option \<Rightarrow> json option \<Rightarrow> (conflict_kind \<times> json) set" where
  "step_keys known_ids known_aliases i a =
     {(Duplicate_id, t) | t. i = Some t \<and> t \<in> known_ids} \<union>
     {(Id_alias_collision, t) | t. i = Some t \<and> t \<in> known_aliases} \<union>
     {(Duplicate_alias, t) | t. a = Some t \<and> t \<in> known_aliases} \<union>
     {(Id_alias_collision, t) | t. a = Some t \<and> (t \<in> known_ids \<or> i = Some t)}"

section \<open>Strings\<close>

text \<open>
  Literals are compared as the character strings they are written with; \<open>js_simps\<close>
  gives their code units where a computation needs them.
\<close>

lemma js_simps: "js [] = []" "js (c # cs) = of_char c # js cs"
  by (simp_all add: js_def)

lemma js_eq_iff [simp]: "js a = js b \<longleftrightarrow> a = b"
  unfolding js_def by (rule inj_map_eq_map) (simp add: inj_on_def)

lemma js_empty_iff [simp]: "js a = [] \<longleftrightarrow> a = []" "[] = js a \<longleftrightarrow> a = []"
  by (auto simp: js_def)

lemma length_js [simp]: "length (js a) = length a"
  by (simp add: js_def)

lemma set_js_subset [simp]: "set (js a) \<subseteq> set (js b) \<longleftrightarrow> set a \<subseteq> set b"
  unfolding js_def set_map by (rule inj_image_subset_iff) (simp add: inj_on_def)

lemma prefix_js [simp]: "prefix (js a) (js b) \<longleftrightarrow> prefix a b"
  by (induction a arbitrary: b; case_tac b; simp add: js_simps)

section \<open>Properties of the sanitizer\<close>

lemma PLATFORM_FIELDS_not_prefixed: "k \<in> set PLATFORM_FIELDS \<Longrightarrow> \<not> prefix (js ''_platform'') k"
  by (auto simp: PLATFORM_FIELDS_def)

lemma delete_as_filter: "AList.delete k kvs = filter (\<lambda>kv. fst kv \<noteq> k) kvs"
  by (induction kvs) auto

lemma map_of_eq_None_fst: "(map_of kvs k = None) = (k \<notin> fst ` set kvs)"
  by (simp add: map_of_eq_None_iff)

lemma strip_fields_object:
  "distinct fs \<Longrightarrow>
   strip_fields base fs (JObj kvs) ws =
     (JObj (filter (\<lambda>kv. fst kv \<notin> set fs) kvs),
      ws @ map (warning base) (filter (\<lambda>f. f \<in> fst ` set kvs) fs))"
proof (induction fs arbitrary: kvs ws)
  case Nil
  then show ?case by simp
next
  case (Cons f fs)
  have keep: "filter (\<lambda>g. g \<in> fst ` set (filter (\<lambda>kv. fst kv \<noteq> f) kvs)) fs =
              filter (\<lambda>g. g \<in> fst ` set kvs) fs"
    using Cons.prems by (intro filter_cong) (force simp: image_iff)+
  show ?case
  proof (cases "f \<in> fst ` set kvs")
    case True
    with Cons keep show ?thesis
      by (simp add: map_of_eq_None_fst delete_prop_def delete_as_filter conj_commute)
  next
    case False
    then have "filter (\<lambda>kv. fst kv \<noteq> f \<and> fst kv \<notin> set fs) kvs =
               filter (\<lambda>kv. fst kv \<notin> set fs) kvs"
      by (intro filter_cong) auto
    with False Cons show ?thesis
      by (simp add: map_of_eq_None_fst)
  qed
qed

lemma strip_prefixed_object:
  "strip_prefixed base keys (JObj kvs) ws =
     (JObj (filter (\<lambda>kv. \<not> (fst kv \<in> set keys \<and> prefix (js ''_platform'') (fst kv))) kvs),
      ws @ map (warning base) (filter (prefix (js ''_platform'')) keys))"
proof (induction keys arbitrary: kvs ws)
  case Nil
  then show ?case by simp
next
  case (Cons k keys)
  show ?case
  proof (cases "prefix (js ''_platform'') k")
    case True
    have "filter (\<lambda>kv. \<not> (fst kv \<in> set keys \<and> prefix (js ''_platform'') (fst kv)))
            (filter (\<lambda>kv. fst kv \<noteq> k) kvs) =
          filter (\<lambda>kv. \<not> (fst kv \<in> set (k # keys) \<and> prefix (js ''_platform'') (fst kv))) kvs"
      using True by (simp, intro filter_cong) auto
    with True Cons show ?thesis
      by (simp add: delete_prop_def delete_as_filter del: filter_filter)
  next
    case False
    have "filter (\<lambda>kv. \<not> (fst kv \<in> set keys \<and> prefix (js ''_platform'') (fst kv))) kvs =
          filter (\<lambda>kv. \<not> (fst kv \<in> set (k # keys) \<and> prefix (js ''_platform'') (fst kv))) kvs"
      using False by (intro filter_cong) auto
    with False Cons show ?thesis
      by (simp del: set_simps)
  qed
qed

lemma stripPlatformFields_object:
  "stripPlatformFields (JObj kvs) base =
     Inr (JObj (filter (\<lambda>kv. \<not> reserved (fst kv)) kvs),
          map (warning base)
            (filter (\<lambda>f. f \<in> fst ` set kvs) PLATFORM_FIELDS @
             filter (prefix (js ''_platform'')) (map fst kvs)))"
proof -
  define kvs1 where "kvs1 = filter (\<lambda>kv. fst kv \<notin> set PLATFORM_FIELDS) kvs"
  define ws1 where "ws1 = map (warning base) (filter (\<lambda>f. f \<in> fst ` set kvs) PLATFORM_FIELDS)"
  have d: "distinct PLATFORM_FIELDS"
    by (simp add: PLATFORM_FIELDS_def)
  have first: "strip_fields base PLATFORM_FIELDS (JObj kvs) [] = (JObj kvs1, ws1)"
    unfolding strip_fields_object[OF d] kvs1_def ws1_def by simp
  have a: "filter (\<lambda>kv. \<not> (fst kv \<in> set (map fst kvs1) \<and> prefix (js ''_platform'') (fst kv))) kvs1 =
           filter (\<lambda>kv. \<not> reserved (fst kv)) kvs"
    unfolding kvs1_def filter_filter
    by (intro filter_cong) (force simp: reserved_def image_iff)+
  have b: "filter (prefix (js ''_platform'')) (map fst kvs1) = filter (prefix (js ''_platform'')) (map fst kvs)"
    unfolding kvs1_def by (induction kvs) (auto dest: PLATFORM_FIELDS_not_prefixed)
  have second: "strip_prefixed base (map fst kvs1) (JObj kvs1) ws1 =
                  (JObj (filter (\<lambda>kv. \<not> reserved (fst kv)) kvs),
                   ws1 @ map (warning base) (filter (prefix (js ''_platform'')) (map fst kvs)))"
    unfolding strip_prefixed_object a b ..
  show ?thesis
    unfolding stripPlatformFields_def first
    by (simp add: second) (simp add: ws1_def)
qed

lemma mset_filter_mem_swap:
  "distinct xs \<Longrightarrow> distinct ys \<Longrightarrow>
   mset (filter (\<lambda>x. x \<in> set ys) xs) = mset (filter (\<lambda>y. y \<in> set xs) ys)"
  by (intro iffD1[OF set_eq_iff_mset_eq_distinct]) auto

lemma stripPlatformFields_reserved:
  assumes "distinct (map fst kvs)"
  shows "\<exists>warnings.
           stripPlatformFields (JObj kvs) base =
             Inr (JObj (filter (\<lambda>kv. \<not> reserved (fst kv)) kvs), warnings) \<and>
           mset warnings = mset (map (warning base) (filter reserved (map fst kvs))) \<and>
           ((\<forall>k \<in> fst ` set kvs. \<not> reserved k) \<longrightarrow>
              stripPlatformFields (JObj kvs) base = Inr (JObj kvs, []))"
proof -
  let ?keys = "map fst kvs"
  let ?ws = "map (warning base)
               (filter (\<lambda>f. f \<in> fst ` set kvs) PLATFORM_FIELDS @ filter (prefix (js ''_platform'')) ?keys)"
  have d: "distinct PLATFORM_FIELDS"
    by (simp add: PLATFORM_FIELDS_def)
  have "mset (filter (\<lambda>f. f \<in> set ?keys) PLATFORM_FIELDS) =
        mset (filter (\<lambda>k. k \<in> set PLATFORM_FIELDS) ?keys)"
    using d assms by (rule mset_filter_mem_swap)
  moreover have "mset (filter reserved ?keys) =
        mset (filter (\<lambda>k. k \<in> set PLATFORM_FIELDS) ?keys) + mset (filter (prefix (js ''_platform'')) ?keys)"
    by (induction kvs) (auto simp: reserved_def dest: PLATFORM_FIELDS_not_prefixed)
  ultimately have m: "mset ?ws = mset (map (warning base) (filter reserved ?keys))"
    by simp
  have n: "(\<forall>k \<in> fst ` set kvs. \<not> reserved k) \<longrightarrow>
             ?ws = [] \<and> filter (\<lambda>kv. \<not> reserved (fst kv)) kvs = kvs"
    by (auto simp: reserved_def filter_empty_conv filter_id_conv)
  from m n show ?thesis
    unfolding stripPlatformFields_object by auto
qed

lemma reserved_names:
  "reserved =
     (\<lambda>k. k \<in> {js ''badges'', js ''stats'', js ''sponsored'', js ''featured''} \<or>
          prefix (js ''_platform'') k)"
  unfolding reserved_def PLATFORM_FIELDS_def by (rule ext) simp

lemma warning_text:
  "warning base =
     (\<lambda>k. js ''  WARNING: '' @ js [CHR 0x22] @ k @ js [CHR 0x22] @
          js '' is a platform-managed field and will be stripped from '' @ base)"
  unfolding warning_def by (rule ext) (rule refl)

text \<open>
  Claim C4. For a record (an object, its property names distinct), \<^verbatim>\<open>stripPlatformFields\<close>
  leaves exactly the fields whose name is neither one of \<^verbatim>\<open>badges\<close>, \<^verbatim>\<open>stats\<close>,
  \<^verbatim>\<open>sponsored\<close>, \<^verbatim>\<open>featured\<close> nor starts with \<^verbatim>\<open>_platform\<close>, in their order and with
  their values; the warnings are, as a multiset, one line per removed field, which names
  the field between double quotes and ends with the base name of the file; and a record
  with no such field comes back unchanged with no warning.
\<close>

theorem stripPlatformFields_removes_reserved:
  assumes "distinct (map fst kvs)"
  shows "\<exists>warnings.
           stripPlatformFields (JObj kvs) base =
             Inr (JObj (filter
                    (\<lambda>kv. \<not> (fst kv \<in> {js ''badges'', js ''stats'', js ''sponsored'', js ''featured''} \<or>
                              prefix (js ''_platform'') (fst kv))) kvs),
                  warnings) \<and>
           mset warnings =
             mset (map (\<lambda>k. js ''  WARNING: '' @ js [CHR 0x22] @ k @ js [CHR 0x22] @
                             js '' is a platform-managed field and will be stripped from '' @ base)
                    (filter
                       (\<lambda>k. k \<in> {js ''badges'', js ''stats'', js ''sponsored'', js ''featured''} \<or>
                            prefix (js ''_platform'') k)
                       (map fst kvs))) \<and>
           ((\<forall>k \<in> fst ` set kvs.
                \<not> (k \<in> {js ''badges'', js ''stats'', js ''sponsored'', js ''featured''} \<or>
                   prefix (js ''_platform'') k)) \<longrightarrow>
              stripPlatformFields (JObj kvs) base = Inr (JObj kvs, []))"
  using stripPlatformFields_reserved[OF assms, of base]
  unfolding reserved_names warning_text .

theorem stripPlatformFields_removes_reserved_witness:
  "(\<exists>warnings.
      stripPlatformFields
        (JObj [(js ''id'', JStr (js ''a'')), (js ''badges'', JArr [JStr (js ''official'')]),
               (js ''stats'', JObj [(js ''stars'', JNum 5)]), (js ''sponsored'', JBool True),
               (js ''name'', JStr (js ''A'')), (js ''featured'', JBool False),
               (js ''_platform_rank'', JNum 1)])
        (js ''a.json'') =
          Inr (JObj [(js ''id'', JStr (js ''a'')), (js ''name'', JStr (js ''A''))], warnings) \<and>
      mset warnings =
        mset (map (\<lambda>k. js ''  WARNING: '' @ js [CHR 0x22] @ k @ js [CHR 0x22] @
                        js '' is a platform-managed field and will be stripped from '' @ js ''a.json'')
               [js ''badges'', js ''stats'', js ''sponsored'', js ''featured'', js ''_platform_rank''])) \<and>
   stripPlatformFields (JObj [(js ''id'', JStr (js ''a'')), (js ''name'', JStr (js ''A''))]) (js ''a.json'') =
     Inr (JObj [(js ''id'', JStr (js ''a'')), (js ''name'', JStr (js ''A''))], [])"
  using stripPlatformFields_removes_reserved
          [of "[(js ''id'', JStr (js ''a'')), (js ''badges'', JArr [JStr (js ''official'')]),
               (js ''stats'', JObj [(js ''stars'', JNum 5)]), (js ''sponsored'', JBool True),
               (js ''name'', JStr (js ''A'')), (js ''featured'', JBool False),
               (js ''_platform_rank'', JNum 1)]" "js ''a.json''"]
        stripPlatformFields_removes_reserved
          [of "[(js ''id'', JStr (js ''a'')), (js ''name'', JStr (js ''A''))]" "js ''a.json''"]
  by simp

section \<open>Properties of enrichment\<close>

lemma digit_char: "d < 10 \<Longrightarrow> digit d \<in> set (js ''0123456789'')"
  unfolding digit_def by (rule nth_mem) simp

lemma decimal_digits: "set (decimal n) \<subseteq> set (js ''0123456789'')"
proof (induction n rule: decimal.induct)
  case (1 n)
  show ?case
  proof (cases "n < 10")
    case True
    then show ?thesis
      using digit_char[of n] by (subst decimal.simps) simp
  next
    case False
    have "n mod 10 < 10" by simp
    from digit_char[OF this] 1[OF False] False show ?thesis
      by (subst decimal.simps) simp
  qed
qed

lemma map_of_indexed:
  assumes "\<not> set k \<subseteq> set (js ''0123456789'')"
  shows "map_of (zip (map decimal ns) xs) k = None"
proof -
  have "k \<notin> set (map decimal ns)"
    using assms decimal_digits by auto
  then show ?thesis
    by (auto simp: map_of_eq_None_iff dest: set_zip_leftD)
qed

lemma own_props_member:
  "\<not> set k \<subseteq> set (js ''0123456789'') \<Longrightarrow> map_of (own_props v) k = member (Some v) k"
  by (cases v) (simp_all add: member_def map_of_indexed)

lemma guarded_prop_member:
  "\<not> set k \<subseteq> set (js ''0123456789'') \<Longrightarrow> guarded_prop p k = member p k"
  by (cases p) (auto simp: guarded_prop_def member_def map_of_indexed split: json.splits)


lemma enrichServer_value:
  "server \<noteq> JNull \<Longrightarrow>
   enrichServer now server =
     Inr (AList.update (js ''timestamps'') (JObj [(js ''created_at'', JStr now), (js ''updated_at'', JStr now)])
           (AList.update (js ''hosting_type'')
              (JStr (if member (member (Some server) (js ''transport'')) (js ''type'') = Some (JStr (js ''http''))
                     then (js ''remote'') else (js ''local'')))
              (AList.update (js ''badges'')
                 (if member (member (Some server) (js ''publisher'')) (js ''official'') = Some (JBool True)
                  then JArr [JStr (js ''official'')] else JArr [])
                 (own_props server))))"
  by (simp add: enrichServer_def get_prop_def Let_def guarded_prop_member own_props_member)

text \<open>
  Claim C5. For every record (any loaded value but \<^verbatim>\<open>null\<close>, on which the call throws), the
  enriched copy has \<^verbatim>\<open>badges\<close> equal to \<^verbatim>\<open>["official"]\<close> when \<^verbatim>\<open>publisher.official\<close> is
  the boolean \<^verbatim>\<open>true\<close> and equal to the empty array otherwise, and \<^verbatim>\<open>hosting_type\<close> equal to
  \<^verbatim>\<open>"remote"\<close> when \<^verbatim>\<open>transport.type\<close> is \<^verbatim>\<open>"http"\<close> and to \<^verbatim>\<open>"local"\<close> in every other
  case (\<^verbatim>\<open>"stdio"\<close>, another type, no transport).
\<close>

theorem enrichServer_badges_hosting:
  assumes "server \<noteq> JNull"
  shows "\<exists>enriched.
           enrichServer now server = Inr enriched \<and>
           map_of enriched (js ''badges'') =
             Some (if member (member (Some server) (js ''publisher'')) (js ''official'') = Some (JBool True)
                   then JArr [JStr (js ''official'')] else JArr []) \<and>
           map_of enriched (js ''hosting_type'') =
             Some (JStr (if member (member (Some server) (js ''transport'')) (js ''type'') = Some (JStr (js ''http''))
                         then (js ''remote'') else (js ''local'')))"
  unfolding enrichServer_value[OF assms]
  by (simp add: AList.update_conv')

theorem enrichServer_badges_hosting_witness:
  "(\<exists>enriched.
      enrichServer (js ''t'') (JObj [(js ''publisher'', JObj [(js ''official'', JBool True)]),
                               (js ''transport'', JObj [(js ''type'', JStr (js ''http''))])]) = Inr enriched \<and>
      map_of enriched (js ''badges'') = Some (JArr [JStr (js ''official'')]) \<and>
      map_of enriched (js ''hosting_type'') = Some (JStr (js ''remote''))) \<and>
   (\<exists>enriched.
      enrichServer (js ''t'') (JObj [(js ''publisher'', JObj [(js ''official'', JStr (js ''true''))])]) = Inr enriched \<and>
      map_of enriched (js ''badges'') = Some (JArr []) \<and>
      map_of enriched (js ''hosting_type'') = Some (JStr (js ''local'')))"
  using enrichServer_badges_hosting
          [of "JObj [(js ''publisher'', JObj [(js ''official'', JBool True)]),
                     (js ''transport'', JObj [(js ''type'', JStr (js ''http''))])]" "(js ''t'')"]
        enrichServer_badges_hosting
          [of "JObj [(js ''publisher'', JObj [(js ''official'', JStr (js ''true''))])]" "(js ''t'')"]
  by (simp add: member_def)

section \<open>Properties of the sort\<close>



















lemma compare_names_receiver:
  "\<not> string_name a \<Longrightarrow> compare_names lc ts a b = Inl TypeError"
  by (auto simp: compare_names_def string_name_def split: json.splits)










section \<open>Properties of the bundle build\<close>




lemma load_servers_fails:
  "\<exists>entry \<in> set files. snd entry = None \<Longrightarrow> \<exists>e. load_servers clock n files = Inl e"
proof (induction files arbitrary: n)
  case Nil
  then show ?case by simp
next
  case (Cons entry files)
  obtain relative loaded where entry: "entry = (relative, loaded)"
    by (cases entry)
  show ?case
  proof (cases loaded)
    case None
    with entry show ?thesis by simp
  next
    case (Some data)
    with Cons.prems entry have "\<exists>entry \<in> set files. snd entry = None"
      by auto
    from Cons.IH[OF this, of "Suc n"] entry Some show ?thesis
      by (auto split: sum.splits)
  qed
qed



lemma main_ends:
  "main engine lc ts clock categories_loaded files = \<lparr>exit_code = 1, written = None\<rparr> \<or>
   (\<exists>doc. main engine lc ts clock categories_loaded files = \<lparr>exit_code = 0, written = Some doc\<rparr>)"
  by (auto simp: main_def abort_def split: option.splits sum.splits)







text \<open>
  Claim C7. If the category store cannot be loaded, or some record file cannot be loaded
  or parsed, the run ends with exit code 1 and writes no bundle.
\<close>

theorem main_all_or_nothing:
  assumes "categories_loaded = None \<or> (\<exists>entry \<in> set files. snd entry = None)"
  shows "main engine localeCompare toString clock categories_loaded files =
           \<lparr>exit_code = 1, written = None\<rparr>"
proof (cases categories_loaded)
  case None
  then show ?thesis
    by (simp add: main_def abort_def)
next
  case (Some categories)
  with assms have "\<exists>entry \<in> set files. snd entry = None"
    by simp
  from load_servers_fails[OF this] obtain e where "load_servers clock 0 files = Inl e"
    by blast
  with Some show ?thesis
    by (simp add: main_def abort_def)
qed

theorem main_all_or_nothing_witness:
  "main insertion_sort root_collation atom_toString (\<lambda>n. js ''t'') None
     [(js ''servers/a.json'', Some (JObj [(js ''id'', JStr (js ''a''))]))] =
     \<lparr>exit_code = 1, written = None\<rparr> \<and>
   main insertion_sort root_collation atom_toString (\<lambda>n. js ''t'') (Some (JArr []))
     [(js ''servers/a.json'', Some (JObj [(js ''id'', JStr (js ''a''))])), (js ''servers/b.json'', None)] =
     \<lparr>exit_code = 1, written = None\<rparr>"
  using main_all_or_nothing
          [of None "[(js ''servers/a.json'', Some (JObj [(js ''id'', JStr (js ''a''))]))]"
              insertion_sort root_collation atom_toString "\<lambda>n. js ''t''"]
        main_all_or_nothing
          [of "Some (JArr [])"
              "[(js ''servers/a.json'', Some (JObj [(js ''id'', JStr (js ''a''))])), (js ''servers/b.json'', None)]"
              insertion_sort root_collation atom_toString "\<lambda>n. js ''t''"]
  by simp









lemma subseq_take: "subseq (take n xs) xs"
proof (induction xs arbitrary: n)
  case Nil
  then show ?case by simp
next
  case (Cons x xs)
  then show ?case by (cases n) simp_all
qed

lemma is_featured_flags:
  "is_featured s = (truthy (publisher_flag s (js ''official'')) \<and> truthy (publisher_flag s (js ''verified'')))"
  by (simp add: is_featured_def publisher_flag_def guarded_prop_member)

lemma featured_flags:
  assumes "is_featured s"
  shows "truthy (publisher_flag s (js ''official'')) \<and> truthy (publisher_flag s (js ''verified'')) \<and>
         (\<forall>b. publisher_flag s (js ''official'') = Some (JBool b) \<longrightarrow> b) \<and>
         (\<forall>b. publisher_flag s (js ''verified'') = Some (JBool b) \<longrightarrow> b)"
  using assms by (auto simp: is_featured_flags truthy_def)

text \<open>
  Claim C2, as amended. \<^verbatim>\<open>featuredIds\<close> has at most 6 entries; they are the ids of a
  subsequence of the sorted servers, in that order; and each of these servers has a truthy
  \<^verbatim>\<open>publisher.official\<close> and a truthy \<^verbatim>\<open>publisher.verified\<close>, which for a flag that is a
  boolean means \<^verbatim>\<open>true\<close>.
\<close>

theorem featuredIds_truthy_flags:
  "length (featuredIds servers) \<le> 6 \<and>
   (\<exists>picked.
      subseq picked servers \<and>
      featuredIds servers = map (\<lambda>s. map_of s (js ''id'')) picked \<and>
      (\<forall>s \<in> set picked.
         truthy (publisher_flag s (js ''official'')) \<and> truthy (publisher_flag s (js ''verified'')) \<and>
         (\<forall>b. publisher_flag s (js ''official'') = Some (JBool b) \<longrightarrow> b) \<and>
         (\<forall>b. publisher_flag s (js ''verified'') = Some (JBool b) \<longrightarrow> b)))"
proof -
  define picked where "picked = take 6 (filter is_featured servers)"
  have "subseq picked (filter is_featured servers)"
    unfolding picked_def by (rule subseq_take)
  then have sub: "subseq picked servers"
    by (rule subseq_order.order_trans) (rule subseq_filter_left)
  have len: "length picked \<le> 6"
    unfolding picked_def by simp
  have "is_featured s" if "s \<in> set picked" for s
    using that in_set_takeD[of s 6 "filter is_featured servers"] unfolding picked_def by simp
  then have flags: "\<forall>s \<in> set picked.
         truthy (publisher_flag s (js ''official'')) \<and> truthy (publisher_flag s (js ''verified'')) \<and>
         (\<forall>b. publisher_flag s (js ''official'') = Some (JBool b) \<longrightarrow> b) \<and>
         (\<forall>b. publisher_flag s (js ''verified'') = Some (JBool b) \<longrightarrow> b)"
    using featured_flags by blast
  have eq: "featuredIds servers = map (\<lambda>s. map_of s (js ''id'')) picked"
    unfolding featuredIds_def picked_def ..
  from len eq have "length (featuredIds servers) \<le> 6"
    by simp
  with sub eq flags show ?thesis
    by blast
qed

theorem featuredIds_truthy_flags_witness:
  "featuredIds
     [[(js ''id'', JStr (js ''a'')), (js ''publisher'', JObj [(js ''official'', JBool True), (js ''verified'', JBool True)])],
      [(js ''id'', JStr (js ''b'')), (js ''publisher'', JObj [(js ''official'', JBool True), (js ''verified'', JBool False)])]] =
     [Some (JStr (js ''a''))] \<and>
   length (featuredIds
     [[(js ''id'', JStr (js ''a'')), (js ''publisher'', JObj [(js ''official'', JBool True), (js ''verified'', JBool True)])],
      [(js ''id'', JStr (js ''b'')), (js ''publisher'', JObj [(js ''official'', JBool True), (js ''verified'', JBool False)])]]) \<le> 6"
  using featuredIds_truthy_flags
     [of "[[(js ''id'', JStr (js ''a'')), (js ''publisher'', JObj [(js ''official'', JBool True), (js ''verified'', JBool True)])],
      [(js ''id'', JStr (js ''b'')), (js ''publisher'', JObj [(js ''official'', JBool True), (js ''verified'', JBool False)])]]"]
  by (simp add: featuredIds_def is_featured_def guarded_prop_def truthy_def)

text \<open>
  Claim C2 as stated fails: a record whose flags are the number \<^verbatim>\<open>1\<close> and the string
  \<^verbatim>\<open>"yes"\<close> is featured, and its \<^verbatim>\<open>publisher.official\<close> is not the boolean \<^verbatim>\<open>true\<close>.
\<close>

theorem featuredIds_truthy_flags_counterexample:
  "enrichServer (js ''t'')
     (JObj [(js ''id'', JStr (js ''x'')),
            (js ''publisher'', JObj [(js ''official'', JNum 1), (js ''verified'', JStr (js ''yes''))])]) =
     Inr [(js ''id'', JStr (js ''x'')),
          (js ''publisher'', JObj [(js ''official'', JNum 1), (js ''verified'', JStr (js ''yes''))]),
          (js ''badges'', JArr []), (js ''hosting_type'', JStr (js ''local'')),
          (js ''timestamps'', JObj [(js ''created_at'', JStr (js ''t'')), (js ''updated_at'', JStr (js ''t''))])] \<and>
   featuredIds
     [[(js ''id'', JStr (js ''x'')),
       (js ''publisher'', JObj [(js ''official'', JNum 1), (js ''verified'', JStr (js ''yes''))]),
       (js ''badges'', JArr []), (js ''hosting_type'', JStr (js ''local'')),
       (js ''timestamps'', JObj [(js ''created_at'', JStr (js ''t'')), (js ''updated_at'', JStr (js ''t''))])]] =
     [Some (JStr (js ''x''))] \<and>
   publisher_flag
     [(js ''id'', JStr (js ''x'')),
      (js ''publisher'', JObj [(js ''official'', JNum 1), (js ''verified'', JStr (js ''yes''))]),
      (js ''badges'', JArr []), (js ''hosting_type'', JStr (js ''local'')),
      (js ''timestamps'', JObj [(js ''created_at'', JStr (js ''t'')), (js ''updated_at'', JStr (js ''t''))])]
     (js ''official'') \<noteq> Some (JBool True)"
  by (simp add: enrichServer_def get_prop_def guarded_prop_def featuredIds_def is_featured_def
        truthy_def publisher_flag_def member_def)

section \<open>Properties of conflict detection\<close>

lemma conflict_keys_append [simp]:
  "conflict_keys (xs @ ys) = conflict_keys xs \<union> conflict_keys ys"
  by (auto simp: conflict_keys_def)

lemma conflict_keys_simps [simp]:
  "conflict_keys [] = {}"
  "conflict_keys (c # cs) = insert (kind_of c, token_of c) (conflict_keys cs)"
  by (auto simp: conflict_keys_def)

lemma visible_iff: "k \<in> visible m \<longleftrightarrow> is_primitive k \<and> m k \<noteq> None"
  by (simp add: visible_def map_get_def)

lemma map_get_None: "map_get m k = None \<longleftrightarrow> k \<notin> visible m"
  by (simp add: visible_def)

lemma map_get_Some: "map_get m k = Some v \<Longrightarrow> k \<in> visible m"
  by (simp add: visible_def)

lemma visible_map_set:
  "visible (map_set m k v) = (if is_primitive k then insert k (visible m) else visible m)"
  by (auto simp: visible_def map_get_def map_set_def)

text \<open>The effect of the two blocks of the loop body.\<close>

lemma check_id_effect:
  "visible (ids (check_id relative v st)) =
     (if is_primitive v then insert v (visible (ids st)) else visible (ids st))"
  "aliases (check_id relative v st) = aliases st"
  "conflict_keys (console (check_id relative v st)) =
     conflict_keys (console st) \<union>
     (if v \<in> visible (ids st) then {(Duplicate_id, v)} else {}) \<union>
     (if v \<in> visible (aliases st) then {(Id_alias_collision, v)} else {})"
  "hasConflicts (check_id relative v st) =
     (hasConflicts st \<or> v \<in> visible (ids st) \<or> v \<in> visible (aliases st))"
  by (auto simp: check_id_def report_def Let_def visible_map_set map_get_None visible_iff
           dest: map_get_Some split: option.splits)

lemma check_alias_effect:
  "visible (aliases (check_alias relative v st)) =
     (if is_primitive v then insert v (visible (aliases st)) else visible (aliases st))"
  "ids (check_alias relative v st) = ids st"
  "conflict_keys (console (check_alias relative v st)) =
     conflict_keys (console st) \<union>
     (if v \<in> visible (aliases st) then {(Duplicate_alias, v)} else {}) \<union>
     (if v \<in> visible (ids st) then {(Id_alias_collision, v)} else {})"
  "hasConflicts (check_alias relative v st) =
     (hasConflicts st \<or> v \<in> visible (aliases st) \<or> v \<in> visible (ids st))"
  by (auto simp: check_alias_def report_def Let_def visible_map_set map_get_None visible_iff
           dest: map_get_Some split: option.splits)

lemma when_truthy_id_effect:
  "visible (ids (when_truthy x (check_id relative) st)) =
     visible (ids st) \<union> set_option (truthy_primitive x)"
  "aliases (when_truthy x (check_id relative) st) = aliases st"
  "conflict_keys (console (when_truthy x (check_id relative) st)) =
     conflict_keys (console st) \<union>
     {(Duplicate_id, t) | t. truthy_primitive x = Some t \<and> t \<in> visible (ids st)} \<union>
     {(Id_alias_collision, t) | t. truthy_primitive x = Some t \<and> t \<in> visible (aliases st)}"
  unfolding truthy_primitive_def when_truthy_def
  by (auto simp: check_id_effect visible_iff split: option.splits)

lemma when_truthy_alias_effect:
  "visible (aliases (when_truthy x (check_alias relative) st)) =
     visible (aliases st) \<union> set_option (truthy_primitive x)"
  "ids (when_truthy x (check_alias relative) st) = ids st"
  "conflict_keys (console (when_truthy x (check_alias relative) st)) =
     conflict_keys (console st) \<union>
     {(Duplicate_alias, t) | t. truthy_primitive x = Some t \<and> t \<in> visible (aliases st)} \<union>
     {(Id_alias_collision, t) | t. truthy_primitive x = Some t \<and> t \<in> visible (ids st)}"
  unfolding truthy_primitive_def when_truthy_def
  by (auto simp: check_alias_effect visible_iff split: option.splits)

lemma check_file_null: "check_file relative JNull st = Inl TypeError"
  by (simp add: check_file_def get_prop_def)

lemma check_file_value:
  "data \<noteq> JNull \<Longrightarrow>
   check_file relative data st =
     Inr (when_truthy (map_of (own_props data) (js ''alias'')) (check_alias relative)
           (when_truthy (map_of (own_props data) (js ''id'')) (check_id relative) st))"
  by (simp add: check_file_def get_prop_def)

lemma check_file_effect:
  assumes "check_file relative data st = Inr st1"
  shows "visible (ids st1) = visible (ids st) \<union> set_option (token (js ''id'') data)"
    and "visible (aliases st1) = visible (aliases st) \<union> set_option (token (js ''alias'') data)"
    and "conflict_keys (console st1) =
           conflict_keys (console st) \<union>
           step_keys (visible (ids st)) (visible (aliases st)) (token (js ''id'') data) (token (js ''alias'') data)"
proof -
  from assms have n: "data \<noteq> JNull"
    using check_file_null by fastforce
  let ?mid = "when_truthy (map_of (own_props data) (js ''id'')) (check_id relative) st"
  from assms have st1: "st1 = when_truthy (map_of (own_props data) (js ''alias'')) (check_alias relative) ?mid"
    unfolding check_file_value[OF n] by simp
  show "visible (ids st1) = visible (ids st) \<union> set_option (token (js ''id'') data)"
    unfolding st1 when_truthy_alias_effect when_truthy_id_effect token_def ..
  show "visible (aliases st1) = visible (aliases st) \<union> set_option (token (js ''alias'') data)"
    unfolding st1 when_truthy_alias_effect when_truthy_id_effect token_def ..
  show "conflict_keys (console st1) =
           conflict_keys (console st) \<union>
           step_keys (visible (ids st)) (visible (aliases st)) (token (js ''id'') data) (token (js ''alias'') data)"
    unfolding st1 when_truthy_alias_effect when_truthy_id_effect token_def step_keys_def
    by auto
qed

lemma tokens_Nil [simp]: "tokens k [] = {#}"
  by (simp add: tokens_def)

lemma tokens_Cons:
  "tokens k (entry # files) =
     (case file_token k entry of None \<Rightarrow> tokens k files | Some t \<Rightarrow> add_mset t (tokens k files))"
  by (simp add: tokens_def split: option.splits)

lemma expected_keys_Nil [simp]: "expected_keys known_ids known_aliases [] = {}"
  by (simp add: expected_keys_def)

lemma in_tokens_Cons:
  "t \<in># tokens k (entry # files) \<longleftrightarrow> file_token k entry = Some t \<or> t \<in># tokens k files"
  by (auto simp: tokens_Cons split: option.splits)

lemma count_tokens_Cons:
  "count (tokens k (entry # files)) t =
     (if file_token k entry = Some t then 1 else 0) + count (tokens k files) t"
  by (simp add: tokens_Cons split: option.splits)

lemma two_le_count_in:
  assumes "2 \<le> count M t"
  shows "t \<in># M"
proof (rule count_inI)
  assume "count M t = 0"
  with assms show False
    by simp
qed

lemma two_le_count:
  "2 \<le> (if P then 1 else 0) + count M t \<longleftrightarrow> (P \<and> t \<in># M) \<or> 2 \<le> count M t"
proof (cases P)
  case True
  have "(2 \<le> 1 + count M t) = (1 \<le> count M t)"
    by linarith
  also have "\<dots> = (t \<in># M)"
    by (rule count_greater_eq_one_iff)
  finally have "(2 \<le> (if P then 1 else 0) + count M t) = (t \<in># M)"
    using True by simp
  with True two_le_count_in[of M t] show ?thesis
    by blast
next
  case False
  then show ?thesis
    by simp
qed

lemma in_set_option: "t \<in> set_option x \<longleftrightarrow> x = Some t"
  by (cases x) auto

lemma in_expected_keys:
  "(Duplicate_id, t) \<in> expected_keys A B files \<longleftrightarrow>
     t \<in># tokens (js ''id'') files \<and> (t \<in> A \<or> 2 \<le> count (tokens (js ''id'') files) t)"
  "(Duplicate_alias, t) \<in> expected_keys A B files \<longleftrightarrow>
     t \<in># tokens (js ''alias'') files \<and> (t \<in> B \<or> 2 \<le> count (tokens (js ''alias'') files) t)"
  "(Id_alias_collision, t) \<in> expected_keys A B files \<longleftrightarrow>
     (t \<in># tokens (js ''id'') files \<and> t \<in> B) \<or> (t \<in># tokens (js ''alias'') files \<and> t \<in> A) \<or>
     (t \<in># tokens (js ''id'') files \<and> t \<in># tokens (js ''alias'') files)"
  by (simp_all add: expected_keys_def)

lemma in_step_keys:
  "(Duplicate_id, t) \<in> step_keys A B i a \<longleftrightarrow> i = Some t \<and> t \<in> A"
  "(Duplicate_alias, t) \<in> step_keys A B i a \<longleftrightarrow> a = Some t \<and> t \<in> B"
  "(Id_alias_collision, t) \<in> step_keys A B i a \<longleftrightarrow>
     (i = Some t \<and> t \<in> B) \<or> (a = Some t \<and> (t \<in> A \<or> i = Some t))"
  by (simp_all add: step_keys_def)

lemma expected_keys_Cons:
  "expected_keys known_ids known_aliases (entry # files) =
     step_keys known_ids known_aliases (file_token (js ''id'') entry) (file_token (js ''alias'') entry) \<union>
     expected_keys (known_ids \<union> set_option (file_token (js ''id'') entry))
                   (known_aliases \<union> set_option (file_token (js ''alias'') entry)) files"
proof (rule set_eqI)
  fix x :: "conflict_kind \<times> json"
  obtain k t where x: "x = (k, t)"
    by (cases x)
  show "x \<in> expected_keys known_ids known_aliases (entry # files) \<longleftrightarrow>
        x \<in> step_keys known_ids known_aliases (file_token (js ''id'') entry) (file_token (js ''alias'') entry) \<union>
            expected_keys (known_ids \<union> set_option (file_token (js ''id'') entry))
                          (known_aliases \<union> set_option (file_token (js ''alias'') entry)) files"
  proof (cases k)
    case Duplicate_id
    show ?thesis
      using two_le_count_in[of "tokens (js ''id'') files" t]
      unfolding x Duplicate_id Un_iff in_expected_keys in_step_keys in_tokens_Cons
        count_tokens_Cons two_le_count in_set_option
      by blast
  next
    case Duplicate_alias
    show ?thesis
      using two_le_count_in[of "tokens (js ''alias'') files" t]
      unfolding x Duplicate_alias Un_iff in_expected_keys in_step_keys in_tokens_Cons
        count_tokens_Cons two_le_count in_set_option
      by blast
  next
    case Id_alias_collision
    show ?thesis
      unfolding x Id_alias_collision Un_iff in_expected_keys in_step_keys in_tokens_Cons
        in_set_option
      by blast
  qed
qed

lemma file_token_parsed [simp]: "file_token k (relative, Some data) = token k data"
  by (simp add: file_token_def)

lemma file_token_skipped [simp]: "file_token k (relative, None) = None"
  by (simp add: file_token_def)

lemma conflict_loop_keys:
  "conflict_loop files st = Inr st' \<Longrightarrow>
   conflict_keys (console st') =
     conflict_keys (console st) \<union> expected_keys (visible (ids st)) (visible (aliases st)) files"
proof (induction files arbitrary: st)
  case Nil
  then show ?case by simp
next
  case (Cons entry files)
  obtain relative loaded where entry: "entry = (relative, loaded)"
    by (cases entry)
  show ?case
  proof (cases loaded)
    case None
    with Cons.prems entry have "conflict_loop files st = Inr st'"
      by simp
    from Cons.IH[OF this] None entry show ?thesis
      by (simp add: expected_keys_Cons step_keys_def)
  next
    case (Some data)
    with Cons.prems entry obtain st1 where
      f: "check_file relative data st = Inr st1" and l: "conflict_loop files st1 = Inr st'"
      by (auto split: sum.splits)
    from Cons.IH[OF l] check_file_effect[OF f] Some entry show ?thesis
      by (simp add: expected_keys_Cons Un_assoc)
  qed
qed

lemma conflict_loop_returns:
  "(\<exists>st'. conflict_loop files st = Inr st') \<longleftrightarrow> Some JNull \<notin> snd ` set files"
proof (induction files arbitrary: st)
  case Nil
  then show ?case by simp
next
  case (Cons entry files)
  obtain relative loaded where entry: "entry = (relative, loaded)"
    by (cases entry)
  show ?case
  proof (cases loaded)
    case None
    with Cons.IH[of st] entry show ?thesis
      by simp
  next
    case (Some data)
    show ?thesis
    proof (cases "data = JNull")
      case True
      with Some entry show ?thesis
        by (simp add: check_file_null)
    next
      case False
      from check_file_value[OF False] obtain st1 where "check_file relative data st = Inr st1"
        by blast
      with Cons.IH[of st1] Some entry False show ?thesis
        by auto
    qed
  qed
qed

text \<open>The flag \<^verbatim>\<open>hasConflicts\<close> is set exactly when something has been printed.\<close>

lemma check_id_flag:
  "hasConflicts st = (console st \<noteq> []) \<Longrightarrow>
   hasConflicts (check_id relative v st) = (console (check_id relative v st) \<noteq> [])"
  by (auto simp: check_id_def report_def Let_def split: option.splits)

lemma check_alias_flag:
  "hasConflicts st = (console st \<noteq> []) \<Longrightarrow>
   hasConflicts (check_alias relative v st) = (console (check_alias relative v st) \<noteq> [])"
  by (auto simp: check_alias_def report_def Let_def split: option.splits)

lemma check_file_flag:
  assumes "check_file relative data st = Inr st1" and "hasConflicts st = (console st \<noteq> [])"
  shows "hasConflicts st1 = (console st1 \<noteq> [])"
proof -
  from assms(1) have n: "data \<noteq> JNull"
    using check_file_null by fastforce
  let ?mid = "when_truthy (map_of (own_props data) (js ''id'')) (check_id relative) st"
  have "hasConflicts ?mid = (console ?mid \<noteq> [])"
    using assms(2) check_id_flag by (simp add: when_truthy_def split: option.splits)
  then have "hasConflicts (when_truthy (map_of (own_props data) (js ''alias'')) (check_alias relative) ?mid)
             = (console (when_truthy (map_of (own_props data) (js ''alias'')) (check_alias relative) ?mid) \<noteq> [])"
    using check_alias_flag by (simp add: when_truthy_def split: option.splits)
  with assms(1) show ?thesis
    unfolding check_file_value[OF n] by simp
qed

lemma conflict_loop_flag:
  "conflict_loop files st = Inr st' \<Longrightarrow> hasConflicts st = (console st \<noteq> []) \<Longrightarrow>
   hasConflicts st' = (console st' \<noteq> [])"
proof (induction files arbitrary: st)
  case Nil
  then show ?case by simp
next
  case (Cons entry files)
  obtain relative loaded where entry: "entry = (relative, loaded)"
    by (cases entry)
  show ?case
  proof (cases loaded)
    case None
    with Cons entry show ?thesis
      by simp
  next
    case (Some data)
    with Cons.prems entry obtain st1 where
      f: "check_file relative data st = Inr st1" and l: "conflict_loop files st1 = Inr st'"
      by (auto split: sum.splits)
    from Cons.IH[OF l check_file_flag[OF f Cons.prems(2)]] show ?thesis .
  qed
qed

lemma checkConflicts_loop: "checkConflicts files = conflict_loop files init_cstate"
  by (simp add: checkConflicts_def)

lemma visible_empty [simp]: "visible Map.empty = {}"
  by (simp add: visible_def map_get_def)

lemma checkConflicts_keys:
  assumes "checkConflicts files = Inr st"
  shows "conflict_keys (console st) = expected_keys {} {} files"
    and "hasConflicts st = (expected_keys {} {} files \<noteq> {})"
proof -
  from assms have l: "conflict_loop files init_cstate = Inr st"
    by (simp add: checkConflicts_loop)
  from conflict_loop_keys[OF l] show k: "conflict_keys (console st) = expected_keys {} {} files"
    by (simp add: init_cstate_def)
  from conflict_loop_flag[OF l] have "hasConflicts st = (console st \<noteq> [])"
    by (simp add: init_cstate_def)
  also have "\<dots> = (conflict_keys (console st) \<noteq> {})"
    by (simp add: conflict_keys_def)
  finally show "hasConflicts st = (expected_keys {} {} files \<noteq> {})"
    unfolding k .
qed

lemma expected_keys_permutation:
  "mset files = mset files' \<Longrightarrow> expected_keys A B files = expected_keys A B files'"
  by (simp add: expected_keys_def tokens_def)

lemmas conflict_run_defs =
  reported_def checkConflicts_def conflict_loop.simps check_file_def get_prop_def when_truthy_def
  check_id_def check_alias_def report_def map_get_def map_set_def init_cstate_def Let_def

text \<open>
  Claim C1, as amended. Two runs of \<^verbatim>\<open>checkConflicts\<close> over the same files in different
  orders either both throw (some file holds \<^verbatim>\<open>null\<close>) or both return, and then they
  report conflicts of the same kinds on the same values and return the same
  \<^verbatim>\<open>hasConflicts\<close>. The number of conflicts and the files they name may differ between
  the two orders.
\<close>

theorem checkConflicts_order_independent_keys:
  assumes "mset files = mset files'" and "checkConflicts files = Inr st"
  shows "\<exists>st'. checkConflicts files' = Inr st' \<and>
               conflict_keys (console st') = conflict_keys (console st) \<and>
               hasConflicts st' = hasConflicts st"
proof -
  from assms(1) have "set files = set files'"
    by (rule mset_eq_setD)
  moreover from assms(2) have "Some JNull \<notin> snd ` set files"
    using conflict_loop_returns[of files init_cstate] by (simp add: checkConflicts_loop)
  ultimately obtain st' where st': "checkConflicts files' = Inr st'"
    using conflict_loop_returns[of files' init_cstate] by (auto simp: checkConflicts_loop)
  from checkConflicts_keys[OF st'] checkConflicts_keys[OF assms(2)]
    expected_keys_permutation[OF assms(1)] st'
  show ?thesis
    by simp
qed

theorem checkConflicts_order_independent_keys_witness:
  "\<exists>st st'.
     checkConflicts [(js ''servers/a.json'', Some (JObj [(js ''id'', JStr (js ''x''))])),
                     (js ''servers/b.json'', Some (JObj [(js ''id'', JStr (js ''x''))])),
                     (js ''servers/c.json'', Some (JObj [(js ''alias'', JStr (js ''x''))]))] = Inr st \<and>
     checkConflicts [(js ''servers/c.json'', Some (JObj [(js ''alias'', JStr (js ''x''))])),
                     (js ''servers/a.json'', Some (JObj [(js ''id'', JStr (js ''x''))])),
                     (js ''servers/b.json'', Some (JObj [(js ''id'', JStr (js ''x''))]))] = Inr st' \<and>
     conflict_keys (console st') = conflict_keys (console st) \<and>
     hasConflicts st' = hasConflicts st \<and>
     conflict_keys (console st) = {(Duplicate_id, JStr (js ''x'')), (Id_alias_collision, JStr (js ''x''))}"
proof -
  let ?F = "[(js ''servers/a.json'', Some (JObj [(js ''id'', JStr (js ''x''))])),
             (js ''servers/b.json'', Some (JObj [(js ''id'', JStr (js ''x''))])),
             (js ''servers/c.json'', Some (JObj [(js ''alias'', JStr (js ''x''))]))]"
  let ?G = "[(js ''servers/c.json'', Some (JObj [(js ''alias'', JStr (js ''x''))])),
             (js ''servers/a.json'', Some (JObj [(js ''id'', JStr (js ''x''))])),
             (js ''servers/b.json'', Some (JObj [(js ''id'', JStr (js ''x''))]))]"
  have m: "mset ?F = mset ?G"
    by simp
  have "Some JNull \<notin> snd ` set ?F"
    by simp
  then obtain st where st: "checkConflicts ?F = Inr st"
    unfolding checkConflicts_loop using conflict_loop_returns[of ?F init_cstate] by blast
  have "reported ?F = Some [DuplicateId (JStr (js ''x'')) (js ''servers/b.json'') (js ''servers/a.json''),
                            AliasCollidesId (JStr (js ''x'')) (js ''servers/c.json'') (js ''servers/a.json'')]"
    by (simp add: conflict_run_defs)
  with st have k: "conflict_keys (console st) = {(Duplicate_id, JStr (js ''x'')), (Id_alias_collision, JStr (js ''x''))}"
    by (simp add: reported_def)
  from checkConflicts_order_independent_keys[OF m st] st k show ?thesis
    by blast
qed

text \<open>
  Claim C1 as stated fails: three files, two declaring the id \<^verbatim>\<open>x\<close> and one the alias
  \<^verbatim>\<open>x\<close>, give two conflicts in one order and three in another, and the pair of
  \<^verbatim>\<open>servers/b.json\<close> and \<^verbatim>\<open>servers/c.json\<close> is reported in the second order only.
\<close>

theorem checkConflicts_order_counterexample:
  "mset [(js ''servers/a.json'', Some (JObj [(js ''id'', JStr (js ''x''))])),
         (js ''servers/b.json'', Some (JObj [(js ''id'', JStr (js ''x''))])),
         (js ''servers/c.json'', Some (JObj [(js ''alias'', JStr (js ''x''))]))] =
   mset [(js ''servers/c.json'', Some (JObj [(js ''alias'', JStr (js ''x''))])),
         (js ''servers/a.json'', Some (JObj [(js ''id'', JStr (js ''x''))])),
         (js ''servers/b.json'', Some (JObj [(js ''id'', JStr (js ''x''))]))] \<and>
   reported [(js ''servers/a.json'', Some (JObj [(js ''id'', JStr (js ''x''))])),
             (js ''servers/b.json'', Some (JObj [(js ''id'', JStr (js ''x''))])),
             (js ''servers/c.json'', Some (JObj [(js ''alias'', JStr (js ''x''))]))] =
     Some [DuplicateId (JStr (js ''x'')) (js ''servers/b.json'') (js ''servers/a.json''),
           AliasCollidesId (JStr (js ''x'')) (js ''servers/c.json'') (js ''servers/a.json'')] \<and>
   reported [(js ''servers/c.json'', Some (JObj [(js ''alias'', JStr (js ''x''))])),
             (js ''servers/a.json'', Some (JObj [(js ''id'', JStr (js ''x''))])),
             (js ''servers/b.json'', Some (JObj [(js ''id'', JStr (js ''x''))]))] =
     Some [IdCollidesAlias (JStr (js ''x'')) (js ''servers/a.json'') (js ''servers/c.json''),
           DuplicateId (JStr (js ''x'')) (js ''servers/b.json'') (js ''servers/a.json''),
           IdCollidesAlias (JStr (js ''x'')) (js ''servers/b.json'') (js ''servers/c.json'')]"
  by (simp add: conflict_run_defs)

text \<open>What the blocks of the loop body do, as seen through lookups.\<close>

lemma map_get_map_set:
  "map_get (map_set m v r) k = (if k = v \<and> is_primitive v then Some r else map_get m k)"
  by (simp add: map_get_def map_set_def)

lemma truthy_primitive_cases:
  obtains (skipped) "truthy_primitive x = None" "\<not> truthy x"
  | (hidden) v where "x = Some v" "js_truthy v" "\<not> is_primitive v" "truthy_primitive x = None"
  | (token) v where "x = Some v" "js_truthy v" "is_primitive v" "truthy_primitive x = Some v"
  by (cases x) (auto simp: truthy_primitive_def truthy_def)

lemma map_get_hidden [simp]: "\<not> is_primitive v \<Longrightarrow> map_get m v = None"
  by (simp add: map_get_def)

lemma id_block:
  "map_get (ids (when_truthy x (check_id r) st)) k =
     (if truthy_primitive x = Some k \<and> map_get (ids st) k = None then Some r
      else map_get (ids st) k)"
  "aliases (when_truthy x (check_id r) st) = aliases st"
  "console (when_truthy x (check_id r) st) =
     console st @
     (case truthy_primitive x of
        None \<Rightarrow> []
      | Some v \<Rightarrow>
          (case map_get (ids st) v of Some p \<Rightarrow> [DuplicateId v r p] | None \<Rightarrow> []) @
          (case map_get (aliases st) v of Some p \<Rightarrow> [IdCollidesAlias v r p] | None \<Rightarrow> []))"
  by (cases x rule: truthy_primitive_cases;
      auto simp: when_truthy_def truthy_def check_id_def report_def Let_def map_get_map_set
           split: option.splits)+

lemma alias_block:
  "map_get (aliases (when_truthy x (check_alias r) st)) k =
     (if truthy_primitive x = Some k \<and> map_get (aliases st) k = None then Some r
      else map_get (aliases st) k)"
  "ids (when_truthy x (check_alias r) st) = ids st"
  "console (when_truthy x (check_alias r) st) =
     console st @
     (case truthy_primitive x of
        None \<Rightarrow> []
      | Some v \<Rightarrow>
          (case map_get (aliases st) v of Some p \<Rightarrow> [DuplicateAlias v r p] | None \<Rightarrow> []) @
          (case map_get (ids st) v of Some p \<Rightarrow> [AliasCollidesId v r p] | None \<Rightarrow> []))"
  by (cases x rule: truthy_primitive_cases;
      auto simp: when_truthy_def truthy_def check_alias_def report_def Let_def map_get_map_set
           split: option.splits)+

lemma init_lookups [simp]:
  "map_get (ids init_cstate) k = None" "map_get (aliases init_cstate) k = None"
  "console init_cstate = []"
  by (simp_all add: init_cstate_def map_get_def)










lemma id_block_new:
  "\<exists>new. console (when_truthy x (check_id r) st) = console st @ new \<and>
         (\<forall>c \<in> set new. from_id_check c)"
  unfolding id_block by (auto split: option.splits)

lemma alias_block_new:
  "\<exists>new. console (when_truthy x (check_alias r) st) = console st @ new \<and>
         (\<forall>c \<in> set new. \<not> from_id_check c)"
  unfolding alias_block by (auto split: option.splits)

lemma when_truthy_falsy: "\<not> truthy x \<Longrightarrow> when_truthy x body st = st"
  by (auto simp: when_truthy_def truthy_def split: option.splits)

lemma check_file_falsy:
  assumes "data \<noteq> JNull"
    and "\<not> truthy (map_of (own_props data) (js ''id''))"
    and "\<not> truthy (map_of (own_props data) (js ''alias''))"
  shows "check_file relative data st = Inr st"
  using assms by (simp add: check_file_value when_truthy_falsy)

lemma conflict_loop_all_falsy:
  assumes "\<forall>entry \<in> set files. \<forall>data. snd entry = Some data \<longrightarrow>
             data \<noteq> JNull \<and> \<not> truthy (map_of (own_props data) (js ''id'')) \<and>
             \<not> truthy (map_of (own_props data) (js ''alias''))"
  shows "conflict_loop files st = Inr st"
  using assms
proof (induction files)
  case Nil
  then show ?case by simp
next
  case (Cons entry files)
  obtain relative loaded where entry: "entry = (relative, loaded)"
    by (cases entry)
  from Cons entry show ?case
    by (cases loaded) (simp_all add: check_file_falsy)
qed

text \<open>
  Claim C10. A record whose \<^verbatim>\<open>id\<close> is missing or falsy leaves the id map as it is and
  prints nothing from the id block; likewise for \<^verbatim>\<open>alias\<close> and the alias map; with both
  missing or falsy the iteration changes nothing. A run over files that are all so returns
  with the initial state and no conflict, and so do two records whose id is the empty
  string.
\<close>

theorem falsy_id_alias_skipped:
  "(data \<noteq> JNull \<longrightarrow>
      (\<exists>st' new.
         check_file relative data st = Inr st' \<and> console st' = console st @ new \<and>
         (\<not> truthy (map_of (own_props data) (js ''id'')) \<longrightarrow>
            ids st' = ids st \<and> (\<forall>c \<in> set new. \<not> from_id_check c)) \<and>
         (\<not> truthy (map_of (own_props data) (js ''alias'')) \<longrightarrow>
            aliases st' = aliases st \<and> (\<forall>c \<in> set new. from_id_check c)) \<and>
         (\<not> truthy (map_of (own_props data) (js ''id'')) \<and>
          \<not> truthy (map_of (own_props data) (js ''alias'')) \<longrightarrow> st' = st))) \<and>
   ((\<forall>entry \<in> set files. \<forall>d. snd entry = Some d \<longrightarrow>
        d \<noteq> JNull \<and> \<not> truthy (map_of (own_props d) (js ''id'')) \<and>
        \<not> truthy (map_of (own_props d) (js ''alias''))) \<longrightarrow>
      checkConflicts files = Inr init_cstate \<and> reported files = Some []) \<and>
   reported [(f1, Some (JObj [(js ''id'', JStr [])])), (f2, Some (JObj [(js ''id'', JStr [])]))] = Some []"
proof (intro conjI impI)
  assume n: "data \<noteq> JNull"
  let ?i = "map_of (own_props data) (js ''id'')" and ?a = "map_of (own_props data) (js ''alias'')"
  let ?mid = "when_truthy ?i (check_id relative) st"
  let ?st' = "when_truthy ?a (check_alias relative) ?mid"
  obtain new1 where n1: "console ?mid = console st @ new1" "\<forall>c \<in> set new1. from_id_check c"
    using id_block_new by blast
  obtain new2 where n2: "console ?st' = console ?mid @ new2" "\<forall>c \<in> set new2. \<not> from_id_check c"
    using alias_block_new by blast
  have "console ?st' = console st @ (new1 @ new2)"
    using n1 n2 by simp
  moreover have "ids ?st' = ids st \<and> (\<forall>c \<in> set (new1 @ new2). \<not> from_id_check c)" if "\<not> truthy ?i"
    using that n1 n2 by (simp add: when_truthy_falsy alias_block(2))
  moreover have "aliases ?st' = aliases st \<and> (\<forall>c \<in> set (new1 @ new2). from_id_check c)" if "\<not> truthy ?a"
    using that n1 n2 by (simp add: when_truthy_falsy id_block(2))
  moreover have "?st' = st" if "\<not> truthy ?i \<and> \<not> truthy ?a"
    using that by (simp add: when_truthy_falsy)
  ultimately show "\<exists>st' new.
         check_file relative data st = Inr st' \<and> console st' = console st @ new \<and>
         (\<not> truthy ?i \<longrightarrow> ids st' = ids st \<and> (\<forall>c \<in> set new. \<not> from_id_check c)) \<and>
         (\<not> truthy ?a \<longrightarrow> aliases st' = aliases st \<and> (\<forall>c \<in> set new. from_id_check c)) \<and>
         (\<not> truthy ?i \<and> \<not> truthy ?a \<longrightarrow> st' = st)"
    unfolding check_file_value[OF n] by blast
next
  assume a: "\<forall>entry \<in> set files. \<forall>d. snd entry = Some d \<longrightarrow>
        d \<noteq> JNull \<and> \<not> truthy (map_of (own_props d) (js ''id'')) \<and>
        \<not> truthy (map_of (own_props d) (js ''alias''))"
  from conflict_loop_all_falsy[OF a] show "checkConflicts files = Inr init_cstate"
    by (simp add: checkConflicts_loop)
  then show "reported files = Some []"
    by (simp add: reported_def)
next
  show "reported [(f1, Some (JObj [(js ''id'', JStr [])])), (f2, Some (JObj [(js ''id'', JStr [])]))] = Some []"
    by (simp add: conflict_run_defs)
qed

theorem falsy_id_alias_skipped_witness:
  "reported [(js ''servers/a.json'', Some (JObj [(js ''id'', JStr [])])),
             (js ''servers/b.json'', Some (JObj [(js ''id'', JStr [])]))] = Some [] \<and>
   checkConflicts [(js ''servers/a.json'', Some (JObj [(js ''id'', JStr []), (js ''alias'', JNum 0)])),
                   (js ''servers/b.json'', Some (JObj [(js ''name'', JStr (js ''no id''))]))] = Inr init_cstate \<and>
   check_file (js ''servers/c.json'') (JObj [(js ''id'', JNull), (js ''alias'', JBool False)]) init_cstate =
     Inr init_cstate"
  using falsy_id_alias_skipped
          [of "JObj [(js ''id'', JNull), (js ''alias'', JBool False)]" "(js ''servers/c.json'')" init_cstate
              "[(js ''servers/a.json'', Some (JObj [(js ''id'', JStr []), (js ''alias'', JNum 0)])),
                (js ''servers/b.json'', Some (JObj [(js ''name'', JStr (js ''no id''))]))]"
              "(js ''servers/a.json'')" "(js ''servers/b.json'')"]
  by (simp add: truthy_def)

end
